theory Spec2Isabelle
  imports Main "HOL-Library.Sublist" "HOL-Library.Word"
begin

unbundle bit_operations_syntax

section \<open>The container runner of \<open>runner/runner.go\<close>\<close>

text \<open>
  The package configures, starts and stops one container on the local docker engine.
  The engine (package \<open>client\<close> of docker), \<open>strconv\<close>, \<open>strings\<close>, \<open>fmt\<close> and \<open>uuid\<close> are
  libraries outside the repository: the few functions of theirs that the runner calls are
  modelled by what they compute, the engine by an arbitrary function of the history of
  calls. Logging (\<open>log.Infoln\<close>) and the cancellation context are left out: no function of
  the package reads them.
\<close>

subsection \<open>Library functions the runner calls\<close>

text \<open>Go's \<open>int\<close> on a 64-bit platform.\<close>

type_synonym go_int = "64 word"

text \<open>
  \<open>strconv.Itoa\<close>: the decimal form of a signed integer, most significant digit first,
  with a leading minus sign for a negative one.
\<close>

definition digit_char :: "nat \<Rightarrow> char" where
  "digit_char d = ''0123456789'' ! d"

fun decimal :: "nat \<Rightarrow> string" where
  "decimal n = (if n < 10 then [digit_char n] else decimal (n div 10) @ [digit_char (n mod 10)])"

definition FormatInt :: "int \<Rightarrow> string" where
  "FormatInt i = (if i < 0 then CHR ''-'' # decimal (nat (- i)) else decimal (nat i))"

definition Itoa :: "go_int \<Rightarrow> string" where
  "Itoa p = FormatInt (sint p)"

text \<open>\<open>strings.Contains s substr\<close>: \<open>substr\<close> occurs in \<open>s\<close> at some position.\<close>

fun Contains :: "string \<Rightarrow> string \<Rightarrow> bool" where
  "Contains [] substr = (substr = [])"
| "Contains (c # s) substr = (prefix substr (c # s) \<or> Contains s substr)"

text \<open>
  \<open>uuid.UUID.String\<close>: the sixteen bytes in lower-case hexadecimal, in groups of
  4, 2, 2, 2 and 6 bytes separated by hyphens.
\<close>

definition hextable :: string where
  "hextable = ''0123456789abcdef''"

fun hex_Encode :: "8 word list \<Rightarrow> string" where
  "hex_Encode [] = []"
| "hex_Encode (v # src) =
     hextable ! unat (drop_bit 4 v) # hextable ! unat (v AND 15) # hex_Encode src"

definition UUID_String :: "8 word list \<Rightarrow> string" where
  "UUID_String uuid =
     hex_Encode (take 4 uuid) @ ''-'' @ hex_Encode (take 2 (drop 4 uuid)) @ ''-'' @
     hex_Encode (take 2 (drop 6 uuid)) @ ''-'' @ hex_Encode (take 2 (drop 8 uuid)) @ ''-'' @
     hex_Encode (drop 10 uuid)"

subsection \<open>Errors\<close>

text \<open>
  An error of the engine is opaque to the runner; it is kept by its message. The runner's
  own errors are the sentinel \<open>ErrNoContainerId\<close> and the wrappers built by
  \<open>fmt.Errorf("<stage>: %w", err)\<close>, which keep the wrapped error.
\<close>

datatype engine_error = EngineError string

datatype error =
    ErrNoContainerId
  | Engine engine_error
  | Errorf string error

fun Error :: "error \<Rightarrow> string" where
  "Error ErrNoContainerId = ''container id does not exist''"
| "Error (Engine (EngineError m)) = m"
| "Error (Errorf stage err) = stage @ '': '' @ Error err"

fun Unwrap :: "error \<Rightarrow> error option" where
  "Unwrap (Errorf stage err) = Some err"
| "Unwrap _ = None"

text \<open>\<open>errors.Is\<close>: the target is the error itself or is reached by unwrapping it.\<close>

fun Is :: "error \<Rightarrow> error \<Rightarrow> bool" where
  "Is (Errorf stage err) target = (Errorf stage err = target \<or> Is err target)"
| "Is err target = (err = target)"

subsection \<open>The runner and its configuration\<close>

definition DefaultHostAddress :: string where
  "DefaultHostAddress = ''127.0.0.1''"

definition RegistryExtensionOptions :: "string list" where
  "RegistryExtensionOptions = [''.com'', ''.io'', ''.org'', ''.net'']"

text \<open>
  \<open>DefaultContainerName\<close> is computed once, when the package is initialised, from a
  random UUID; the sixteen bytes drawn there are a parameter of the model.
\<close>

definition DefaultContainerName :: "8 word list \<Rightarrow> string" where
  "DefaultContainerName uuid = UUID_String uuid"

record PortBinding =
  HostIP :: string
  HostPort :: string

record ContainerRunnerOpts =
  RemoveOnFinalization :: bool

text \<open>A handle on an engine client; the pointer field \<open>client\<close> is \<open>None\<close> when nil.\<close>

type_synonym client = nat

text \<open>
  The fields \<open>image\<close> and \<open>id\<close> carry a prime, since HOL has constants of these names.
  \<open>nat.PortSet\<close> is a set of ports and \<open>nat.PortMap\<close> a map from a port to its bindings;
  a \<open>nat.Port\<close> is a string. The pointer \<open>opts\<close> is \<open>None\<close> when nil.
\<close>

record ContainerRunner =
  name :: string
  image' :: string
  ports :: "string list"
  env :: "string list"
  exposedPorts :: "string set"
  portBindings :: "string \<rightharpoonup> PortBinding list"
  opts :: "ContainerRunnerOpts option"
  client :: "client option"
  id' :: string

definition NewContainerRunner :: ContainerRunner where
  "NewContainerRunner =
     \<lparr> name = [], image' = [], ports = [], env = [],
       exposedPorts = {}, portBindings = Map.empty,
       opts = Some \<lparr> RemoveOnFinalization = True \<rparr>,
       client = None, id' = [] \<rparr>"

fun WithPorts :: "go_int list \<Rightarrow> ContainerRunner \<Rightarrow> ContainerRunner" where
  "WithPorts [] r = r"
| "WithPorts (p # ps) r =
     (let port = Itoa p in
      WithPorts ps
        (r \<lparr> ports := ports r @ [port],
             exposedPorts := insert port (exposedPorts r),
             portBindings := (portBindings r)
               (port \<mapsto> [\<lparr> HostIP = DefaultHostAddress, HostPort = port \<rparr>]) \<rparr>))"

fun substringContainedInSlice :: "string \<Rightarrow> string list \<Rightarrow> bool" where
  "substringContainedInSlice str [] = False"
| "substringContainedInSlice str (s # substrs) =
     (if Contains str s then True else substringContainedInSlice str substrs)"

definition WithImage :: "string \<Rightarrow> ContainerRunner \<Rightarrow> ContainerRunner" where
  "WithImage img r =
     (let r1 = r \<lparr> image' := img \<rparr> in
      if \<not> substringContainedInSlice img RegistryExtensionOptions
      then r1 \<lparr> image' := ''docker.io/library/'' @ img \<rparr>
      else r1)"

definition WithName :: "8 word list \<Rightarrow> string \<Rightarrow> ContainerRunner \<Rightarrow> ContainerRunner" where
  "WithName uuid nm r =
     (let r1 = r \<lparr> name := nm \<rparr> in
      if length nm = 0 then r1 \<lparr> name := DefaultContainerName uuid \<rparr> else r1)"

definition WithEnvironmentVariable :: "string \<Rightarrow> string \<Rightarrow> ContainerRunner \<Rightarrow> ContainerRunner" where
  "WithEnvironmentVariable key val r = r \<lparr> env := env r @ [key @ ''='' @ val] \<rparr>"

definition WithOptions :: "ContainerRunnerOpts option \<Rightarrow> ContainerRunner \<Rightarrow> ContainerRunner" where
  "WithOptions os r = r \<lparr> opts := os \<rparr>"

text \<open>
  A caller configures a runner by a chain of setters on the result of
  \<open>NewContainerRunner\<close>, as \<open>NewContainerRunner().WithName("mongo").WithImage("mongo").WithPorts(27017)\<close>
  does; \<open>configure\<close> runs such a chain, first call first.
\<close>

datatype setter =
    SetPorts "go_int list"
  | SetImage string
  | SetName string
  | SetEnvironmentVariable string string
  | SetOptions "ContainerRunnerOpts option"

fun apply_setter :: "8 word list \<Rightarrow> setter \<Rightarrow> ContainerRunner \<Rightarrow> ContainerRunner" where
  "apply_setter uuid (SetPorts ps) r = WithPorts ps r"
| "apply_setter uuid (SetImage i) r = WithImage i r"
| "apply_setter uuid (SetName n) r = WithName uuid n r"
| "apply_setter uuid (SetEnvironmentVariable k v) r = WithEnvironmentVariable k v r"
| "apply_setter uuid (SetOptions os) r = WithOptions os r"

definition configure :: "8 word list \<Rightarrow> setter list \<Rightarrow> ContainerRunner" where
  "configure uuid ss = fold (apply_setter uuid) ss NewContainerRunner"

fun ports_of :: "setter list \<Rightarrow> go_int set" where
  "ports_of [] = {}"
| "ports_of (SetPorts ps # ss) = set ps \<union> ports_of ss"
| "ports_of (_ # ss) = ports_of ss"

subsection \<open>The engine\<close>

text \<open>
  Every call that reaches the engine is recorded with its arguments and its reply. The
  engine is any function from the calls so far and the arguments of a call to a reply.
  \<open>client.NewEnvClient\<close> returns a nil client with every error; \<open>ContainerCreate\<close>
  returns the identifier of the container (\<open>resp.ID\<close>) when it succeeds.
\<close>

record Config =
  Image :: string
  ExposedPorts :: "string set"

record HostConfig =
  PortBindings :: "string \<rightharpoonup> PortBinding list"

datatype event =
    EvNewEnvClient "engine_error + client"
  | EvImagePull client string "engine_error option"
  | EvContainerCreate client "Config" "HostConfig" string "engine_error + string"
  | EvContainerStart client string "engine_error option"
  | EvContainerStop client string int "engine_error option"
  | EvContainerRemove client string "engine_error option"

record engine =
  NewEnvClient :: "event list \<Rightarrow> engine_error + client"
  ImagePull :: "event list \<Rightarrow> client \<Rightarrow> string \<Rightarrow> engine_error option"
  ContainerCreate ::
    "event list \<Rightarrow> client \<Rightarrow> Config \<Rightarrow> HostConfig \<Rightarrow> string \<Rightarrow> engine_error + string"
  ContainerStart :: "event list \<Rightarrow> client \<Rightarrow> string \<Rightarrow> engine_error option"
  ContainerStop :: "event list \<Rightarrow> client \<Rightarrow> string \<Rightarrow> int \<Rightarrow> engine_error option"
  ContainerRemove :: "event list \<Rightarrow> client \<Rightarrow> string \<Rightarrow> engine_error option"

text \<open>\<open>time.Minute\<close>, a \<open>time.Duration\<close>: nanoseconds.\<close>

definition Minute :: int where
  "Minute = 60000000000"

subsection \<open>Start and Stop\<close>

text \<open>
  \<open>Start\<close> returns the error (\<open>None\<close> for nil), the runner as the call leaves it and the
  calls recorded. The client handle is assigned before the error of \<open>NewEnvClient\<close> is
  looked at, and the identifier before the container is started.
\<close>

definition Start ::
  "engine \<Rightarrow> event list \<Rightarrow> ContainerRunner \<Rightarrow> error option \<times> ContainerRunner \<times> event list" where
  "Start eng w e =
     (let rc = NewEnvClient eng w;
          w1 = w @ [EvNewEnvClient rc] in
      case rc of
        Inl err \<Rightarrow> (Some (Errorf ''creating env client'' (Engine err)), e \<lparr> client := None \<rparr>, w1)
      | Inr c \<Rightarrow>
         (let e1 = e \<lparr> client := Some c \<rparr>;
              rp = ImagePull eng w1 c (image' e1);
              w2 = w1 @ [EvImagePull c (image' e1) rp] in
          case rp of
            Some err \<Rightarrow> (Some (Errorf ''pulling image'' (Engine err)), e1, w2)
          | None \<Rightarrow>
             (let cfg = \<lparr> Image = image' e1, ExposedPorts = exposedPorts e1 \<rparr>;
                  hc = \<lparr> PortBindings = portBindings e1 \<rparr>;
                  rr = ContainerCreate eng w2 c cfg hc (name e1);
                  w3 = w2 @ [EvContainerCreate c cfg hc (name e1) rr] in
              case rr of
                Inl err \<Rightarrow> (Some (Errorf ''creating container'' (Engine err)), e1, w3)
              | Inr ID \<Rightarrow>
                 (let e2 = e1 \<lparr> id' := ID \<rparr>;
                      rs = ContainerStart eng w3 c (id' e2);
                      w4 = w3 @ [EvContainerStart c (id' e2) rs] in
                  case rs of
                    Some err \<Rightarrow> (Some (Errorf ''starting container'' (Engine err)), e2, w4)
                  | None \<Rightarrow> (None, e2, w4)))))"

text \<open>
  \<open>Stop\<close> either returns an error (\<open>None\<close> for nil) or panics on a nil pointer: the
  methods of the docker client read the fields of their receiver, and \<open>Stop\<close> reads
  \<open>e.opts.RemoveOnFinalization\<close> without a test of \<open>e.opts\<close>.
\<close>

datatype nil_pointer = NilClient | NilOpts

datatype outcome = Return "error option" | Panic nil_pointer

definition Stop ::
  "engine \<Rightarrow> event list \<Rightarrow> ContainerRunner \<Rightarrow> outcome \<times> ContainerRunner \<times> event list" where
  "Stop eng w e =
     (if length (id' e) = 0 then (Return (Some ErrNoContainerId), e, w)
      else
        let timeout = Minute in
        case client e of
          None \<Rightarrow> (Panic NilClient, e, w)
        | Some c \<Rightarrow>
           (let rs = ContainerStop eng w c (id' e) timeout;
                w1 = w @ [EvContainerStop c (id' e) timeout rs] in
            case rs of
              Some err \<Rightarrow> (Return (Some (Errorf ''stopping container'' (Engine err))), e, w1)
            | None \<Rightarrow>
               (case opts e of
                  None \<Rightarrow> (Panic NilOpts, e, w1)
                | Some os \<Rightarrow>
                   if RemoveOnFinalization os then
                     (let rr = ContainerRemove eng w1 c (id' e);
                          w2 = w1 @ [EvContainerRemove c (id' e) rr] in
                      case rr of
                        Some err \<Rightarrow>
                          (Return (Some (Errorf ''removing container'' (Engine err))), e, w2)
                      | None \<Rightarrow> (Return None, e, w2))
                   else (Return None, e, w1))))"

subsection \<open>A runner in use\<close>

text \<open>
  What a caller does with a runner: it configures it, starts it, stops it, in any order
  and any number of times. \<open>run\<close> follows such a sequence of calls on a new runner against
  an engine, from an empty record of calls; it keeps the runner and the record and drops
  the values returned. A panic of \<open>Stop\<close> leaves both as they are.
\<close>

datatype call = Configure setter | CallStart | CallStop

fun step ::
  "8 word list \<Rightarrow> engine \<Rightarrow> call \<Rightarrow> ContainerRunner \<times> event list \<Rightarrow> ContainerRunner \<times> event list" where
  "step uuid eng (Configure s) (e, w) = (apply_setter uuid s e, w)"
| "step uuid eng CallStart (e, w) = snd (Start eng w e)"
| "step uuid eng CallStop (e, w) = snd (Stop eng w e)"

definition run :: "8 word list \<Rightarrow> engine \<Rightarrow> call list \<Rightarrow> ContainerRunner \<times> event list" where
  "run uuid eng cs = fold (step uuid eng) cs (NewContainerRunner, [])"

text \<open>The identifiers of the containers that the engine has created, by the record.\<close>

fun created :: "event \<Rightarrow> string set" where
  "created (EvContainerCreate c cfg hc nm (Inr ID)) = {ID}"
| "created _ = {}"

subsection \<open>Auxiliary definitions and example inputs\<close>

text \<open>
  An engine that fails at one stage, whatever the arguments: 1 for the client, 2 for the
  pull, 3 for the creation, 4 for the start, 5 for the stop, 6 for the removal, and at no
  stage for any other number. Its client is 1 and its container \<open>4f2a\<close>.
\<close>

definition failing_at :: "nat \<Rightarrow> engine" where
  "failing_at k =
     \<lparr> NewEnvClient = (\<lambda>w. if k = 1 then Inl (EngineError ''cannot connect'') else Inr 1),
       ImagePull = (\<lambda>w c ref. if k = 2 then Some (EngineError ''pull access denied'') else None),
       ContainerCreate = (\<lambda>w c cfg hc nm.
          if k = 3 then Inl (EngineError ''name already in use'') else Inr ''4f2a''),
       ContainerStart = (\<lambda>w c ID.
          if k = 4 then Some (EngineError ''port is already allocated'') else None),
       ContainerStop = (\<lambda>w c ID t. if k = 5 then Some (EngineError ''no such container'') else None),
       ContainerRemove = (\<lambda>w c ID.
          if k = 6 then Some (EngineError ''removal in progress'') else None) \<rparr>"

text \<open>An engine that gives a client to the first call only, and never fails otherwise.\<close>

definition client_once :: engine where
  "client_once =
     \<lparr> NewEnvClient = (\<lambda>w. if w = [] then Inr 1 else Inl (EngineError ''cannot connect'')),
       ImagePull = (\<lambda>w c ref. None),
       ContainerCreate = (\<lambda>w c cfg hc nm. Inr ''4f2a''),
       ContainerStart = (\<lambda>w c ID. None),
       ContainerStop = (\<lambda>w c ID t. None),
       ContainerRemove = (\<lambda>w c ID. None) \<rparr>"

text \<open>The value of a decimal digit, to read a decimal string back.\<close>

definition digit_val :: "char \<Rightarrow> nat" where
  "digit_val c = of_char c - 48"

text \<open>The chain of setters of the README, with a second port and a repeated one.\<close>

definition mongo_setters :: "setter list" where
  "mongo_setters =
     [SetName ''mongo'', SetImage ''mongo'', SetPorts [27017, 8080], SetPorts [27017]]"

definition example_uuid :: "8 word list" where
  "example_uuid =
     [0x6b, 0xa7, 0xb8, 0x10, 0x9d, 0xad, 0x11, 0xd1,
      0x80, 0xb4, 0x00, 0xc0, 0x4f, 0xd4, 0x30, 0xc8]"

text \<open>The runner of the README: name and image \<open>mongo\<close>, port 27017.\<close>

definition mongo :: ContainerRunner where
  "mongo = WithPorts [27017] (WithImage ''mongo'' (WithName example_uuid ''mongo'' NewContainerRunner))"

text \<open>
  The runner of the README after a \<open>Start\<close> that failed at the start of the container,
  after a \<open>Start\<close> that succeeded, and after the one \<open>Start\<close> for which \<open>client_once\<close>
  has a client; each with the record of the calls.
\<close>

definition half_started :: "ContainerRunner \<times> event list" where
  "half_started = snd (Start (failing_at 4) [] mongo)"

definition started :: "ContainerRunner \<times> event list" where
  "started = snd (Start (failing_at 0) [] mongo)"

definition started_once :: "ContainerRunner \<times> event list" where
  "started_once = snd (Start client_once [] mongo)"

text \<open>
  The same runner after a second \<open>Start\<close> against \<open>client_once\<close>, which has no client
  for it.
\<close>

definition lost_client :: "ContainerRunner \<times> event list" where
  "lost_client = snd (Start client_once (snd started_once) (fst started_once))"

section \<open>Properties\<close>

subsection \<open>Image names\<close>

lemma Contains_sublist: "Contains s substr \<longleftrightarrow> sublist substr s"
  by (induction s) (simp_all add: sublist_Cons_right)

lemma Contains_iff: "Contains s substr \<longleftrightarrow> (\<exists>pre post. s = pre @ substr @ post)"
  by (simp add: Contains_sublist sublist_def)

lemma substringContainedInSlice_iff:
  "substringContainedInSlice str substrs \<longleftrightarrow>
     (\<exists>s \<in> set substrs. \<exists>pre post. str = pre @ s @ post)"
  by (induction substrs) (simp_all add: Contains_iff)

lemma default_registry_contained:
  "substringContainedInSlice (''docker.io/library/'' @ s) RegistryExtensionOptions"
proof -
  have "''docker.io/library/'' @ s = ''docker'' @ ''.io'' @ (''/library/'' @ s)" by simp
  then have "\<exists>pre post. ''docker.io/library/'' @ s = pre @ ''.io'' @ post" by blast
  then have "Contains (''docker.io/library/'' @ s) ''.io''" by (simp only: Contains_iff)
  then show ?thesis by (simp add: RegistryExtensionOptions_def)
qed

text \<open>The two cases of \<open>TestSubStringInStrings\<close>.\<close>

lemma substringContainedInSlice_tests:
  "\<not> substringContainedInSlice ''mongo'' RegistryExtensionOptions"
  "substringContainedInSlice ''docker.io/library/mongo'' RegistryExtensionOptions"
  by (simp_all add: RegistryExtensionOptions_def)

text \<open>
  C3. An image name in which none of \<open>.com\<close>, \<open>.io\<close>, \<open>.org\<close>, \<open>.net\<close> occurs is stored
  by \<open>WithImage\<close> as \<open>docker.io/library/<name>\<close>; a name in which one of them occurs is
  stored as it is.
\<close>

theorem WithImage_default_registry:
  "(\<not> (\<exists>s \<in> {''.com'', ''.io'', ''.org'', ''.net''}. \<exists>pre post. img = pre @ s @ post)
      \<longrightarrow> image' (WithImage img r) = ''docker.io/library/'' @ img) \<and>
   ((\<exists>s \<in> {''.com'', ''.io'', ''.org'', ''.net''}. \<exists>pre post. img = pre @ s @ post)
      \<longrightarrow> image' (WithImage img r) = img)"
  by (simp add: WithImage_def substringContainedInSlice_iff RegistryExtensionOptions_def)

theorem WithImage_default_registry_witness:
  "image' (WithImage ''mongo'' NewContainerRunner) = ''docker.io/library/mongo'' \<and>
   image' (WithImage ''quay.io/etcd'' NewContainerRunner) = ''quay.io/etcd''"
proof -
  have bare: "\<not> (\<exists>s \<in> {''.com'', ''.io'', ''.org'', ''.net''}.
                 \<exists>pre post. ''mongo'' = pre @ s @ post)"
    using substringContainedInSlice_iff [of "''mongo''" RegistryExtensionOptions]
    by (simp add: RegistryExtensionOptions_def)
  have full: "\<exists>s \<in> {''.com'', ''.io'', ''.org'', ''.net''}.
                 \<exists>pre post. ''quay.io/etcd'' = pre @ s @ post"
    using substringContainedInSlice_iff [of "''quay.io/etcd''" RegistryExtensionOptions]
    by (simp add: RegistryExtensionOptions_def)
  have "image' (WithImage ''mongo'' NewContainerRunner) = ''docker.io/library/'' @ ''mongo''"
    using WithImage_default_registry
            [of "''mongo''" NewContainerRunner, THEN conjunct1, THEN mp, OF bare] .
  moreover have "image' (WithImage ''quay.io/etcd'' NewContainerRunner) = ''quay.io/etcd''"
    using WithImage_default_registry
            [of "''quay.io/etcd''" NewContainerRunner, THEN conjunct2, THEN mp, OF full] .
  ultimately show ?thesis by simp
qed

text \<open>
  C9. The rewriting of \<open>WithImage\<close> is idempotent: the image it stores is stored unchanged
  by a second \<open>WithImage\<close>, on any runner, since \<open>docker.io/library/<s>\<close> contains \<open>.io\<close>.
\<close>

theorem WithImage_idempotent:
  "image' (WithImage (image' (WithImage s r)) r') = image' (WithImage s r) \<and>
   substringContainedInSlice (''docker.io/library/'' @ s) RegistryExtensionOptions"
proof -
  have rewritten: "substringContainedInSlice (''docker.io/library/'' @ s) RegistryExtensionOptions"
    by (rule default_registry_contained)
  have twice: "image' (WithImage (image' (WithImage s r)) r') = image' (WithImage s r)"
  proof (cases "substringContainedInSlice s RegistryExtensionOptions")
    case True
    then show ?thesis by (simp add: WithImage_def)
  next
    case False
    then have "image' (WithImage s r) = ''docker.io/library/'' @ s"
      by (simp add: WithImage_def)
    then show ?thesis
      by (simp only: WithImage_def default_registry_contained Let_def) simp
  qed
  from twice rewritten show ?thesis by (rule conjI)
qed

subsection \<open>Ports\<close>

lemma digit_val_digit_char: "d < 10 \<Longrightarrow> digit_val (digit_char d) = d"
proof -
  assume "d < 10"
  then have "d \<in> {0, 1, 2, 3, 4, 5, 6, 7, 8, 9}" by auto
  then show ?thesis by (auto simp: digit_val_def digit_char_def)
qed

lemma digit_char_not_minus: "d < 10 \<Longrightarrow> digit_char d \<noteq> CHR ''-''"
proof -
  assume "d < 10"
  then have "d \<in> {0, 1, 2, 3, 4, 5, 6, 7, 8, 9}" by auto
  then show ?thesis by (auto simp: digit_char_def)
qed

lemma undecimal_decimal: "foldl (\<lambda>a c. 10 * a + digit_val c) 0 (decimal n) = n"
proof (induction n rule: decimal.induct)
  case (1 n)
  show ?case
  proof (cases "n < 10")
    case True
    then show ?thesis by (subst decimal.simps) (simp add: digit_val_digit_char del: decimal.simps)
  next
    case False
    with 1 show ?thesis by (subst decimal.simps) (simp add: digit_val_digit_char del: decimal.simps)
  qed
qed

lemma decimal_inj: "decimal n = decimal m \<Longrightarrow> n = m"
  by (metis undecimal_decimal)

lemma hd_decimal: "decimal n \<noteq> [] \<and> hd (decimal n) \<noteq> CHR ''-''"
proof (induction n rule: decimal.induct)
  case (1 n)
  show ?case
  proof (cases "n < 10")
    case True
    then show ?thesis by (subst (1 2) decimal.simps) (simp add: digit_char_not_minus del: decimal.simps)
  next
    case False
    with 1 show ?thesis by (subst (1 2) decimal.simps) (simp del: decimal.simps)
  qed
qed

lemma FormatInt_inj: "FormatInt i = FormatInt j \<Longrightarrow> i = j"
proof -
  assume eq: "FormatInt i = FormatInt j"
  have neg: "CHR ''-'' # decimal a \<noteq> decimal b" for a b
    using hd_decimal [of b] by (cases "decimal b") (simp_all del: decimal.simps)
  show ?thesis
  proof (cases "i < 0")
    case True
    show ?thesis
    proof (cases "j < 0")
      case True
      with \<open>i < 0\<close> eq have "nat (- i) = nat (- j)"
        by (simp add: FormatInt_def decimal_inj del: decimal.simps)
      with True \<open>i < 0\<close> show ?thesis by simp
    next
      case False
      with \<open>i < 0\<close> eq neg show ?thesis by (simp add: FormatInt_def del: decimal.simps)
    qed
  next
    case False
    show ?thesis
    proof (cases "j < 0")
      case True
      with \<open>\<not> i < 0\<close> eq neg [of "nat (- j)" "nat i"] show ?thesis by (simp add: FormatInt_def del: decimal.simps)
    next
      case False
      with \<open>\<not> i < 0\<close> eq have "nat i = nat j"
        by (simp add: FormatInt_def decimal_inj del: decimal.simps)
      with False \<open>\<not> i < 0\<close> show ?thesis by simp
    qed
  qed
qed

lemma Itoa_inj: "inj Itoa"
proof (rule injI)
  fix x y :: go_int
  assume "Itoa x = Itoa y"
  then have "sint x = sint y" unfolding Itoa_def by (rule FormatInt_inj)
  then show "x = y" by (rule signed_word_eqI)
qed

lemma WithPorts_exposedPorts:
  "exposedPorts (WithPorts ps r) = exposedPorts r \<union> Itoa ` set ps"
  by (induction ps arbitrary: r) (simp_all add: Let_def)

lemma WithPorts_portBindings:
  "portBindings (WithPorts ps r) k =
     (if k \<in> Itoa ` set ps then Some [\<lparr> HostIP = DefaultHostAddress, HostPort = k \<rparr>]
      else portBindings r k)"
  by (induction ps arbitrary: r) (auto simp: Let_def)

lemma fold_setter_exposedPorts:
  "exposedPorts (fold (apply_setter uuid) ss r) = exposedPorts r \<union> Itoa ` ports_of ss"
proof (induction ss arbitrary: r)
  case Nil
  show ?case by simp
next
  case (Cons s ss)
  then show ?case
    by (cases s)
       (simp_all add: WithPorts_exposedPorts WithImage_def WithName_def
          WithEnvironmentVariable_def WithOptions_def Let_def image_Un Un_assoc)
qed

lemma fold_setter_portBindings:
  "portBindings (fold (apply_setter uuid) ss r) k =
     (if k \<in> Itoa ` ports_of ss then Some [\<lparr> HostIP = DefaultHostAddress, HostPort = k \<rparr>]
      else portBindings r k)"
proof (induction ss arbitrary: r)
  case Nil
  show ?case by simp
next
  case (Cons s ss)
  then show ?case
    by (cases s)
       (simp_all add: WithPorts_portBindings WithImage_def WithName_def
          WithEnvironmentVariable_def WithOptions_def Let_def image_Un)
qed

lemma finite_ports_of: "finite (ports_of ss)"
  by (induction ss rule: ports_of.induct) simp_all

lemma Itoa_27017: "Itoa 27017 = ''27017''"
  by (simp add: Itoa_def FormatInt_def digit_char_def)

lemma Itoa_8080: "Itoa 8080 = ''8080''"
  by (simp add: Itoa_def FormatInt_def digit_char_def)

text \<open>
  C4. After any chain of setters on a new runner, the exposed ports and the keys of the
  port bindings are exactly the decimal forms of the ports given to the \<open>WithPorts\<close>
  calls of the chain, one entry for each distinct port (\<open>Itoa\<close> is injective), and the
  binding of a port is the single one of host address \<open>127.0.0.1\<close> and of host port the
  port itself.
\<close>

theorem WithPorts_one_entry_per_port:
  "exposedPorts (configure uuid ss) = Itoa ` ports_of ss \<and>
   dom (portBindings (configure uuid ss)) = Itoa ` ports_of ss \<and>
   card (exposedPorts (configure uuid ss)) = card (ports_of ss) \<and>
   card (dom (portBindings (configure uuid ss))) = card (ports_of ss) \<and>
   (\<forall>p \<in> ports_of ss.
      portBindings (configure uuid ss) (Itoa p) =
        Some [\<lparr> HostIP = ''127.0.0.1'', HostPort = Itoa p \<rparr>])"
proof -
  have e: "exposedPorts (configure uuid ss) = Itoa ` ports_of ss"
    by (simp add: configure_def fold_setter_exposedPorts NewContainerRunner_def)
  have b: "portBindings (configure uuid ss) k =
             (if k \<in> Itoa ` ports_of ss
              then Some [\<lparr> HostIP = DefaultHostAddress, HostPort = k \<rparr>] else None)" for k
    by (simp add: configure_def fold_setter_portBindings NewContainerRunner_def)
  have d: "dom (portBindings (configure uuid ss)) = Itoa ` ports_of ss"
    by (auto simp: b dom_def)
  have c: "card (Itoa ` ports_of ss) = card (ports_of ss)"
    by (rule card_image) (rule inj_on_subset [OF Itoa_inj subset_UNIV])
  from e d c show ?thesis by (simp add: b DefaultHostAddress_def)
qed


theorem WithPorts_one_entry_per_port_witness:
  "exposedPorts (configure example_uuid mongo_setters) = {''27017'', ''8080''} \<and>
   card (dom (portBindings (configure example_uuid mongo_setters))) = 2 \<and>
   portBindings (configure example_uuid mongo_setters) ''27017'' =
     Some [\<lparr> HostIP = ''127.0.0.1'', HostPort = ''27017'' \<rparr>]"
proof -
  have p: "ports_of mongo_setters = {27017, 8080}"
    by (simp add: mongo_setters_def insert_commute)
  have distinct_ports: "(27017 :: go_int) \<noteq> 8080" by simp
  have n: "card {27017, 8080 :: go_int} = 2" by (simp add: distinct_ports)
  note t = WithPorts_one_entry_per_port [of example_uuid mongo_setters, unfolded p n]
  have "exposedPorts (configure example_uuid mongo_setters) = {''27017'', ''8080''}"
    using t [THEN conjunct1] by (simp add: Itoa_27017 Itoa_8080)
  moreover have "card (dom (portBindings (configure example_uuid mongo_setters))) = 2"
    using t [THEN conjunct2, THEN conjunct2, THEN conjunct2, THEN conjunct1] .
  moreover have "portBindings (configure example_uuid mongo_setters) ''27017'' =
     Some [\<lparr> HostIP = ''127.0.0.1'', HostPort = ''27017'' \<rparr>]"
    using t [THEN conjunct2, THEN conjunct2, THEN conjunct2, THEN conjunct2, THEN bspec,
             of 27017]
    by (simp add: Itoa_27017)
  ultimately show ?thesis by (simp only: simp_thms)
qed

subsection \<open>Names\<close>

lemma length_hex_Encode: "length (hex_Encode src) = 2 * length src"
  by (induction src) simp_all

lemma DefaultContainerName_example:
  "DefaultContainerName example_uuid = ''6ba7b810-9dad-11d1-80b4-00c04fd430c8''"
  by (simp add: DefaultContainerName_def UUID_String_def example_uuid_def hextable_def
        drop_bit_eq_div)

text \<open>
  C7. \<open>WithName\<close> with the empty string stores \<open>DefaultContainerName\<close>, the same value
  on every runner of the process, which is not empty (36 characters for the sixteen bytes of
  a UUID); with a non-empty string it stores that string.
\<close>

theorem WithName_default:
  "name (WithName uuid [] r) = DefaultContainerName uuid \<and>
   name (WithName uuid [] r) = name (WithName uuid [] r') \<and>
   DefaultContainerName uuid \<noteq> [] \<and>
   (length uuid = 16 \<longrightarrow> length (DefaultContainerName uuid) = 36) \<and>
   (x \<noteq> [] \<longrightarrow> name (WithName uuid x r) = x)"
  by (simp add: WithName_def DefaultContainerName_def UUID_String_def length_hex_Encode)

theorem WithName_default_witness:
  "length (DefaultContainerName example_uuid) = 36 \<and>
   name (WithName example_uuid ''mongo'' NewContainerRunner) = ''mongo''"
proof -
  have l: "length example_uuid = 16" by (simp add: example_uuid_def)
  have x: "''mongo'' \<noteq> []" by simp
  note t = WithName_default [of example_uuid NewContainerRunner NewContainerRunner "''mongo''"]
  from t l have "length (DefaultContainerName example_uuid) = 36" by (simp only: simp_thms)
  moreover from t x have "name (WithName example_uuid ''mongo'' NewContainerRunner) = ''mongo''"
    by (simp only: simp_thms)
  ultimately show ?thesis by (rule conjI)
qed

subsection \<open>Start and Stop\<close>

lemma Start_client_fails:
  "NewEnvClient eng w = Inl x \<Longrightarrow>
   Start eng w e =
     (Some (Errorf ''creating env client'' (Engine x)), e \<lparr> client := None \<rparr>,
      w @ [EvNewEnvClient (Inl x)])"
  by (simp add: Start_def)

lemma Start_pull_fails:
  "NewEnvClient eng w = Inr c \<Longrightarrow>
   ImagePull eng (w @ [EvNewEnvClient (Inr c)]) c (image' e) = Some x \<Longrightarrow>
   Start eng w e =
     (Some (Errorf ''pulling image'' (Engine x)), e \<lparr> client := Some c \<rparr>,
      w @ [EvNewEnvClient (Inr c), EvImagePull c (image' e) (Some x)])"
  by (simp add: Start_def)

lemma Start_create_fails:
  "NewEnvClient eng w = Inr c \<Longrightarrow>
   ImagePull eng (w @ [EvNewEnvClient (Inr c)]) c (image' e) = None \<Longrightarrow>
   ContainerCreate eng (w @ [EvNewEnvClient (Inr c), EvImagePull c (image' e) None]) c
     \<lparr> Image = image' e, ExposedPorts = exposedPorts e \<rparr>
     \<lparr> PortBindings = portBindings e \<rparr> (name e) = Inl x \<Longrightarrow>
   Start eng w e =
     (Some (Errorf ''creating container'' (Engine x)), e \<lparr> client := Some c \<rparr>,
      w @ [EvNewEnvClient (Inr c), EvImagePull c (image' e) None,
           EvContainerCreate c \<lparr> Image = image' e, ExposedPorts = exposedPorts e \<rparr>
             \<lparr> PortBindings = portBindings e \<rparr> (name e) (Inl x)])"
  by (simp add: Start_def)

lemma Start_created:
  "NewEnvClient eng w = Inr c \<Longrightarrow>
   ImagePull eng (w @ [EvNewEnvClient (Inr c)]) c (image' e) = None \<Longrightarrow>
   ContainerCreate eng (w @ [EvNewEnvClient (Inr c), EvImagePull c (image' e) None]) c
     \<lparr> Image = image' e, ExposedPorts = exposedPorts e \<rparr>
     \<lparr> PortBindings = portBindings e \<rparr> (name e) = Inr ID \<Longrightarrow>
   ContainerStart eng
     (w @ [EvNewEnvClient (Inr c), EvImagePull c (image' e) None,
           EvContainerCreate c \<lparr> Image = image' e, ExposedPorts = exposedPorts e \<rparr>
             \<lparr> PortBindings = portBindings e \<rparr> (name e) (Inr ID)]) c ID = rs \<Longrightarrow>
   Start eng w e =
     (case rs of None \<Rightarrow> None | Some x \<Rightarrow> Some (Errorf ''starting container'' (Engine x)),
      e \<lparr> client := Some c, id' := ID \<rparr>,
      w @ [EvNewEnvClient (Inr c), EvImagePull c (image' e) None,
           EvContainerCreate c \<lparr> Image = image' e, ExposedPorts = exposedPorts e \<rparr>
             \<lparr> PortBindings = portBindings e \<rparr> (name e) (Inr ID),
           EvContainerStart c ID rs])"
  by (simp add: Start_def split: option.splits)

lemma Stop_no_id:
  "id' e = [] \<Longrightarrow> Stop eng w e = (Return (Some ErrNoContainerId), e, w)"
  by (simp add: Stop_def)

lemma Stop_nil_client:
  "id' e \<noteq> [] \<Longrightarrow> client e = None \<Longrightarrow> Stop eng w e = (Panic NilClient, e, w)"
  by (simp add: Stop_def)

lemma Stop_stop_fails:
  "id' e \<noteq> [] \<Longrightarrow> client e = Some c \<Longrightarrow> ContainerStop eng w c (id' e) Minute = Some x \<Longrightarrow>
   Stop eng w e =
     (Return (Some (Errorf ''stopping container'' (Engine x))), e,
      w @ [EvContainerStop c (id' e) Minute (Some x)])"
  by (simp add: Stop_def)

lemma Stop_nil_opts:
  "id' e \<noteq> [] \<Longrightarrow> client e = Some c \<Longrightarrow> ContainerStop eng w c (id' e) Minute = None \<Longrightarrow>
   opts e = None \<Longrightarrow>
   Stop eng w e = (Panic NilOpts, e, w @ [EvContainerStop c (id' e) Minute None])"
  by (simp add: Stop_def)

lemma Stop_keep:
  "id' e \<noteq> [] \<Longrightarrow> client e = Some c \<Longrightarrow> ContainerStop eng w c (id' e) Minute = None \<Longrightarrow>
   opts e = Some os \<Longrightarrow> \<not> RemoveOnFinalization os \<Longrightarrow>
   Stop eng w e = (Return None, e, w @ [EvContainerStop c (id' e) Minute None])"
  by (simp add: Stop_def)

lemma Stop_remove:
  "id' e \<noteq> [] \<Longrightarrow> client e = Some c \<Longrightarrow> ContainerStop eng w c (id' e) Minute = None \<Longrightarrow>
   opts e = Some os \<Longrightarrow> RemoveOnFinalization os \<Longrightarrow>
   ContainerRemove eng (w @ [EvContainerStop c (id' e) Minute None]) c (id' e) = rr \<Longrightarrow>
   Stop eng w e =
     (Return (case rr of None \<Rightarrow> None | Some x \<Rightarrow> Some (Errorf ''removing container'' (Engine x))),
      e,
      w @ [EvContainerStop c (id' e) Minute None, EvContainerRemove c (id' e) rr])"
  by (simp add: Stop_def split: option.splits)

lemma Stop_runner: "fst (snd (Stop eng w e)) = e"
  by (simp add: Stop_def Let_def split: option.splits)

lemma Stop_events: "\<exists>evs. snd (snd (Stop eng w e)) = w @ evs"
  by (simp add: Stop_def Let_def split: option.splits)

lemma Start_events: "\<exists>evs. snd (snd (Start eng w e)) = w @ evs"
  by (simp add: Start_def Let_def split: option.splits sum.splits)

lemma Start_id:
  "id' (fst (snd (Start eng w e))) = id' e \<or>
   id' (fst (snd (Start eng w e))) \<in> \<Union> (created ` set (snd (snd (Start eng w e))))"
  by (simp add: Start_def Let_def split: option.splits sum.splits)

lemma WithPorts_id: "id' (WithPorts ps r) = id' r"
  by (induction ps arbitrary: r) (simp_all add: Let_def)

lemma apply_setter_id: "id' (apply_setter uuid s e) = id' e"
  by (cases s) (simp_all add: WithPorts_id WithImage_def WithName_def WithEnvironmentVariable_def
        WithOptions_def Let_def)


lemma configure_id: "id' (configure uuid ss) = []"
proof -
  have "id' (fold (apply_setter uuid) ss r) = id' r" for r
    by (induction ss arbitrary: r) (simp_all add: apply_setter_id)
  then show ?thesis by (simp add: configure_def NewContainerRunner_def)
qed

lemma step_created:
  assumes "id' e \<noteq> [] \<longrightarrow> id' e \<in> \<Union> (created ` set w)"
  shows "id' (fst (step uuid eng c (e, w))) \<noteq> [] \<longrightarrow>
         id' (fst (step uuid eng c (e, w))) \<in> \<Union> (created ` set (snd (step uuid eng c (e, w))))"
proof (cases c)
  case (Configure s)
  with assms show ?thesis by (simp add: apply_setter_id)
next
  case CallStart
  obtain evs where evs: "snd (snd (Start eng w e)) = w @ evs"
    using Start_events by blast
  from Start_id [of eng w e] assms evs CallStart show ?thesis by auto
next
  case CallStop
  obtain evs where evs: "snd (snd (Stop eng w e)) = w @ evs"
    using Stop_events by blast
  from assms evs CallStop show ?thesis by (auto simp: Stop_runner)
qed

lemma fold_step_created:
  "id' (fst s) \<noteq> [] \<longrightarrow> id' (fst s) \<in> \<Union> (created ` set (snd s)) \<Longrightarrow>
   id' (fst (fold (step uuid eng) cs s)) \<noteq> [] \<longrightarrow>
   id' (fst (fold (step uuid eng) cs s)) \<in> \<Union> (created ` set (snd (fold (step uuid eng) cs s)))"
proof (induction cs arbitrary: s)
  case Nil
  then show ?case by simp
next
  case (Cons c cs)
  obtain e w where s: "s = (e, w)" by (cases s)
  from Cons.prems s step_created [of e w uuid eng c]
  have "id' (fst (step uuid eng c s)) \<noteq> [] \<longrightarrow>
        id' (fst (step uuid eng c s)) \<in> \<Union> (created ` set (snd (step uuid eng c s)))"
    by simp
  from Cons.IH [OF this] show ?case by simp
qed

lemma run_created:
  "id' (fst (run uuid eng cs)) \<noteq> [] \<longrightarrow>
   id' (fst (run uuid eng cs)) \<in> \<Union> (created ` set (snd (run uuid eng cs)))"
  unfolding run_def by (rule fold_step_created) (simp add: NewContainerRunner_def)

lemma Start_id_changed:
  assumes "id' (fst (snd (Start eng w e))) \<noteq> id' e"
  shows "\<exists>c x.
     snd (snd (Start eng w e)) =
       w @ [EvNewEnvClient (Inr c), EvImagePull c (image' e) None,
            EvContainerCreate c \<lparr> Image = image' e, ExposedPorts = exposedPorts e \<rparr>
              \<lparr> PortBindings = portBindings e \<rparr> (name e) (Inr (id' (fst (snd (Start eng w e))))),
            EvContainerStart c (id' (fst (snd (Start eng w e)))) x] \<and>
     fst (Start eng w e) =
       (case x of None \<Rightarrow> None | Some err \<Rightarrow> Some (Errorf ''starting container'' (Engine err)))"
proof (cases "NewEnvClient eng w")
  case (Inl x)
  with assms show ?thesis by (simp add: Start_client_fails)
next
  case client: (Inr c)
  let ?w1 = "w @ [EvNewEnvClient (Inr c)]"
  show ?thesis
  proof (cases "ImagePull eng ?w1 c (image' e)")
    case (Some x)
    with client assms show ?thesis by (simp add: Start_pull_fails)
  next
    case pulled: None
    let ?w2 = "w @ [EvNewEnvClient (Inr c), EvImagePull c (image' e) None]"
    let ?cfg = "\<lparr> Image = image' e, ExposedPorts = exposedPorts e \<rparr>"
    let ?hc = "\<lparr> PortBindings = portBindings e \<rparr>"
    show ?thesis
    proof (cases "ContainerCreate eng ?w2 c ?cfg ?hc (name e)")
      case (Inl x)
      with client pulled assms show ?thesis by (simp add: Start_create_fails)
    next
      case (Inr ID)
      from Start_created [OF client pulled Inr refl] show ?thesis by simp
    qed
  qed
qed


lemma mongo_eq:
  "mongo =
     \<lparr> name = ''mongo'', image' = ''docker.io/library/mongo'', ports = [''27017''], env = [],
       exposedPorts = {''27017''},
       portBindings = [''27017'' \<mapsto> [\<lparr> HostIP = ''127.0.0.1'', HostPort = ''27017'' \<rparr>]],
       opts = Some \<lparr> RemoveOnFinalization = True \<rparr>, client = None, id' = [] \<rparr>"
  by (simp add: mongo_def NewContainerRunner_def WithName_def WithImage_def
        RegistryExtensionOptions_def Itoa_def FormatInt_def digit_char_def DefaultHostAddress_def
        Let_def)

lemma Start_failing_at_4:
  "Start (failing_at 4) w e =
     (Some (Errorf ''starting container'' (Engine (EngineError ''port is already allocated''))),
      e \<lparr> client := Some 1, id' := ''4f2a'' \<rparr>,
      w @ [EvNewEnvClient (Inr 1), EvImagePull 1 (image' e) None,
           EvContainerCreate 1 \<lparr> Image = image' e, ExposedPorts = exposedPorts e \<rparr>
             \<lparr> PortBindings = portBindings e \<rparr> (name e) (Inr ''4f2a''),
           EvContainerStart 1 ''4f2a'' (Some (EngineError ''port is already allocated''))])"
  by (simp add: Start_def failing_at_def)

lemma Start_failing_at_0:
  "Start (failing_at 0) w e =
     (None, e \<lparr> client := Some 1, id' := ''4f2a'' \<rparr>,
      w @ [EvNewEnvClient (Inr 1), EvImagePull 1 (image' e) None,
           EvContainerCreate 1 \<lparr> Image = image' e, ExposedPorts = exposedPorts e \<rparr>
             \<lparr> PortBindings = portBindings e \<rparr> (name e) (Inr ''4f2a''),
           EvContainerStart 1 ''4f2a'' None])"
  by (simp add: Start_def failing_at_def)

text \<open>
  C1, amended. The identifier is empty on a new runner and after any chain of setters. No
  setter and no \<open>Stop\<close> changes it. A \<open>Start\<close> changes it only when the engine has
  created the container, to the identifier the engine returned, and it does so before the
  container is started: the call then returns nil or the error of the stage
  \<open>starting container\<close>. Hence, in any use of a runner, a non-empty identifier is one that the
  engine has returned from a successful creation.
\<close>

theorem id_assigned_at_creation:
  "id' NewContainerRunner = [] \<and>
   id' (configure uuid ss) = [] \<and>
   id' (apply_setter uuid s e) = id' e \<and>
   id' (fst (snd (Stop eng w e))) = id' e \<and>
   (id' (fst (snd (Start eng w e))) \<noteq> id' e \<longrightarrow>
      (\<exists>c x.
         snd (snd (Start eng w e)) =
           w @ [EvNewEnvClient (Inr c), EvImagePull c (image' e) None,
                EvContainerCreate c \<lparr> Image = image' e, ExposedPorts = exposedPorts e \<rparr>
                  \<lparr> PortBindings = portBindings e \<rparr> (name e)
                  (Inr (id' (fst (snd (Start eng w e))))),
                EvContainerStart c (id' (fst (snd (Start eng w e)))) x] \<and>
         fst (Start eng w e) =
           (case x of None \<Rightarrow> None
            | Some err \<Rightarrow> Some (Errorf ''starting container'' (Engine err))))) \<and>
   (id' (fst (run uuid eng cs)) \<noteq> [] \<longrightarrow>
      id' (fst (run uuid eng cs)) \<in> \<Union> (created ` set (snd (run uuid eng cs))))"
proof -
  have "id' NewContainerRunner = []" by (simp add: NewContainerRunner_def)
  moreover note configure_id [of uuid ss] apply_setter_id [of uuid s e]
  moreover have "id' (fst (snd (Stop eng w e))) = id' e" by (simp add: Stop_runner)
  moreover note Start_id_changed [of eng w e] run_created [of uuid eng cs]
  ultimately show ?thesis by blast
qed

theorem id_assigned_at_creation_witness:
  "id' (fst (snd (Start (failing_at 4) [] mongo))) \<noteq> id' mongo \<and>
   fst (Start (failing_at 4) [] mongo) \<noteq> None \<and>
   (\<exists>c x. snd (snd (Start (failing_at 4) [] mongo)) =
      [] @ [EvNewEnvClient (Inr c), EvImagePull c (image' mongo) None,
            EvContainerCreate c \<lparr> Image = image' mongo, ExposedPorts = exposedPorts mongo \<rparr>
              \<lparr> PortBindings = portBindings mongo \<rparr> (name mongo)
              (Inr (id' (fst (snd (Start (failing_at 4) [] mongo))))),
            EvContainerStart c (id' (fst (snd (Start (failing_at 4) [] mongo)))) x] \<and>
      fst (Start (failing_at 4) [] mongo) =
        (case x of None \<Rightarrow> None
         | Some err \<Rightarrow> Some (Errorf ''starting container'' (Engine err)))) \<and>
   id' (fst (run example_uuid (failing_at 4) [CallStart, CallStop])) \<noteq> [] \<and>
   id' (fst (run example_uuid (failing_at 4) [CallStart, CallStop])) \<in>
     \<Union> (created ` set (snd (run example_uuid (failing_at 4) [CallStart, CallStop])))"
proof -
  note t = id_assigned_at_creation
    [of example_uuid "[]" "SetName []" mongo "failing_at 4" "[]" "[CallStart, CallStop]"]
  have changed: "id' (fst (snd (Start (failing_at 4) [] mongo))) \<noteq> id' mongo"
    by (simp add: Start_failing_at_4 mongo_eq)
  have failed: "fst (Start (failing_at 4) [] mongo) \<noteq> None"
    by (simp add: Start_failing_at_4)
  have set: "id' (fst (run example_uuid (failing_at 4) [CallStart, CallStop])) \<noteq> []"
    by (simp add: run_def Start_failing_at_4 Stop_runner)
  note a = t [THEN conjunct2, THEN conjunct2, THEN conjunct2, THEN conjunct2, THEN conjunct1,
              THEN mp, OF changed]
  note b = t [THEN conjunct2, THEN conjunct2, THEN conjunct2, THEN conjunct2, THEN conjunct2,
              THEN mp, OF set]
  from changed failed a set b show ?thesis by (intro conjI)
qed

text \<open>
  C1 as stated fails: a \<open>Start\<close> on the runner of the README against an engine that
  creates the container and then fails to start it returns an error and leaves the
  identifier of the created container in the runner.
\<close>

theorem failed_Start_keeps_id_counterexample:
  "id' mongo = [] \<and>
   fst (Start (failing_at 4) [] mongo) =
     Some (Errorf ''starting container'' (Engine (EngineError ''port is already allocated''))) \<and>
   id' (fst (snd (Start (failing_at 4) [] mongo))) = ''4f2a''"
  by (simp add: Start_failing_at_4 mongo_eq)


lemma Start_failing_at_3:
  "Start (failing_at 3) w e =
     (Some (Errorf ''creating container'' (Engine (EngineError ''name already in use''))),
      e \<lparr> client := Some 1 \<rparr>,
      w @ [EvNewEnvClient (Inr 1), EvImagePull 1 (image' e) None,
           EvContainerCreate 1 \<lparr> Image = image' e, ExposedPorts = exposedPorts e \<rparr>
             \<lparr> PortBindings = portBindings e \<rparr> (name e)
             (Inl (EngineError ''name already in use''))])"
  by (simp add: Start_def failing_at_def)

lemma half_started_eq:
  "half_started =
     (mongo \<lparr> client := Some 1, id' := ''4f2a'' \<rparr>,
      [EvNewEnvClient (Inr 1), EvImagePull 1 (image' mongo) None,
       EvContainerCreate 1 \<lparr> Image = image' mongo, ExposedPorts = exposedPorts mongo \<rparr>
         \<lparr> PortBindings = portBindings mongo \<rparr> (name mongo) (Inr ''4f2a''),
       EvContainerStart 1 ''4f2a'' (Some (EngineError ''port is already allocated''))])"
  by (simp add: half_started_def Start_failing_at_4)

lemma started_eq:
  "started =
     (mongo \<lparr> client := Some 1, id' := ''4f2a'' \<rparr>,
      [EvNewEnvClient (Inr 1), EvImagePull 1 (image' mongo) None,
       EvContainerCreate 1 \<lparr> Image = image' mongo, ExposedPorts = exposedPorts mongo \<rparr>
         \<lparr> PortBindings = portBindings mongo \<rparr> (name mongo) (Inr ''4f2a''),
       EvContainerStart 1 ''4f2a'' None])"
  by (simp add: started_def Start_failing_at_0)

lemma started_fields:
  "id' (fst started) = ''4f2a''" "client (fst started) = Some 1"
  "opts (fst started) = Some \<lparr> RemoveOnFinalization = True \<rparr>"
  by (simp_all add: started_eq mongo_eq)

text \<open>
  C2, amended. On a runner whose identifier is empty, \<open>Stop\<close> returns \<open>ErrNoContainerId\<close>
  and records no engine call; this is so on a runner that was only configured, and on a
  runner in use for which the engine has not created a container. \<open>ErrNoContainerId\<close> is
  no engine error and no wrapper, \<open>errors.Is\<close> tells it from them, and an engine error
  with the same message is another error.
\<close>

theorem Stop_without_id:
  "(id' e = [] \<longrightarrow> Stop eng w e = (Return (Some ErrNoContainerId), e, w)) \<and>
   Stop eng w (configure uuid ss) = (Return (Some ErrNoContainerId), configure uuid ss, w) \<and>
   (\<Union> (created ` set (snd (run uuid eng cs))) = {} \<longrightarrow>
      Stop eng (snd (run uuid eng cs)) (fst (run uuid eng cs)) =
        (Return (Some ErrNoContainerId), fst (run uuid eng cs), snd (run uuid eng cs))) \<and>
   ErrNoContainerId \<noteq> Engine x \<and> ErrNoContainerId \<noteq> Errorf stage err \<and>
   Is ErrNoContainerId ErrNoContainerId \<and> \<not> Is (Engine x) ErrNoContainerId \<and>
   \<not> Is (Errorf stage (Engine x)) ErrNoContainerId \<and>
   Error (Engine (EngineError ''container id does not exist'')) = Error ErrNoContainerId"
proof -
  have a: "id' e = [] \<longrightarrow> Stop eng w e = (Return (Some ErrNoContainerId), e, w)"
    by (simp add: Stop_no_id)
  have b: "Stop eng w (configure uuid ss) =
             (Return (Some ErrNoContainerId), configure uuid ss, w)"
    by (rule Stop_no_id) (rule configure_id)
  have c: "\<Union> (created ` set (snd (run uuid eng cs))) = {} \<longrightarrow>
      Stop eng (snd (run uuid eng cs)) (fst (run uuid eng cs)) =
        (Return (Some ErrNoContainerId), fst (run uuid eng cs), snd (run uuid eng cs))"
  proof
    assume "\<Union> (created ` set (snd (run uuid eng cs))) = {}"
    with run_created [of uuid eng cs] have "id' (fst (run uuid eng cs)) = []" by auto
    then show "Stop eng (snd (run uuid eng cs)) (fst (run uuid eng cs)) =
        (Return (Some ErrNoContainerId), fst (run uuid eng cs), snd (run uuid eng cs))"
      by (rule Stop_no_id)
  qed
  have d: "ErrNoContainerId \<noteq> Engine x \<and> ErrNoContainerId \<noteq> Errorf stage err \<and>
   Is ErrNoContainerId ErrNoContainerId \<and> \<not> Is (Engine x) ErrNoContainerId \<and>
   \<not> Is (Errorf stage (Engine x)) ErrNoContainerId \<and>
   Error (Engine (EngineError ''container id does not exist'')) = Error ErrNoContainerId"
    by simp
  show ?thesis by (rule conjI [OF a conjI [OF b conjI [OF c d]]])
qed

theorem Stop_without_id_witness:
  "id' mongo = [] \<and>
   Stop (failing_at 0) [] mongo = (Return (Some ErrNoContainerId), mongo, []) \<and>
   \<Union> (created ` set (snd (run example_uuid (failing_at 3) [CallStart]))) = {} \<and>
   Stop (failing_at 3) (snd (run example_uuid (failing_at 3) [CallStart]))
       (fst (run example_uuid (failing_at 3) [CallStart])) =
     (Return (Some ErrNoContainerId), fst (run example_uuid (failing_at 3) [CallStart]),
      snd (run example_uuid (failing_at 3) [CallStart]))"
proof -
  have no_id: "id' mongo = []" by (simp add: mongo_eq)
  have none: "\<Union> (created ` set (snd (run example_uuid (failing_at 3) [CallStart]))) = {}"
    by (simp add: run_def Start_failing_at_3)
  note a = Stop_without_id
    [where e = mongo and eng = "failing_at 0" and w = "[]", THEN conjunct1, THEN mp, OF no_id]
  note b = Stop_without_id
    [where uuid = example_uuid and eng = "failing_at 3" and cs = "[CallStart]",
     THEN conjunct2, THEN conjunct2, THEN conjunct1, THEN mp, OF none]
  from no_id a none b show ?thesis by (intro conjI)
qed

text \<open>
  C2 as stated fails: after a \<open>Start\<close> that returned the error of the stage
  \<open>starting container\<close>, no \<open>Start\<close> has succeeded, and \<open>Stop\<close> stops and removes the
  container and returns nil.
\<close>

theorem Stop_after_failed_Start_counterexample:
  "fst (Start (failing_at 4) [] mongo) =
     Some (Errorf ''starting container'' (Engine (EngineError ''port is already allocated''))) \<and>
   Stop (failing_at 4) (snd half_started) (fst half_started) =
     (Return None, fst half_started,
      snd half_started @
        [EvContainerStop 1 ''4f2a'' Minute None, EvContainerRemove 1 ''4f2a'' None])"
proof -
  have "fst (Start (failing_at 4) [] mongo) =
     Some (Errorf ''starting container'' (Engine (EngineError ''port is already allocated'')))"
    by (simp add: Start_failing_at_4)
  moreover have "Stop (failing_at 4) w (mongo \<lparr> client := Some 1, id' := ''4f2a'' \<rparr>) =
     (Return None, mongo \<lparr> client := Some 1, id' := ''4f2a'' \<rparr>,
      w @ [EvContainerStop 1 ''4f2a'' Minute None, EvContainerRemove 1 ''4f2a'' None])" for w
    by (simp add: Stop_def failing_at_def mongo_eq)
  ultimately show ?thesis by (simp add: half_started_eq)
qed


lemma Stop_success:
  assumes "id' e \<noteq> []" and "fst (Stop eng w e) = Return None" and "opts e = Some os"
  shows "\<exists>c. client e = Some c \<and>
     Stop eng w e =
       (Return None, e,
        w @ (if RemoveOnFinalization os
             then [EvContainerStop c (id' e) Minute None, EvContainerRemove c (id' e) None]
             else [EvContainerStop c (id' e) Minute None]))"
proof (cases "client e")
  case None
  with assms show ?thesis by (simp add: Stop_nil_client)
next
  case (Some c)
  show ?thesis
  proof (cases "ContainerStop eng w c (id' e) Minute")
    case stopped: None
    show ?thesis
    proof (cases "RemoveOnFinalization os")
      case True
      from Stop_remove [OF assms(1) Some stopped assms(3) True refl] assms(2) Some True
      show ?thesis by (simp split: option.splits)
    next
      case False
      from Stop_keep [OF assms(1) Some stopped assms(3) False] Some False
      show ?thesis by simp
    qed
  next
    case (Some x)
    with assms \<open>client e = Some c\<close> show ?thesis by (simp add: Stop_stop_fails)
  qed
qed

text \<open>
  C5. A new runner has \<open>RemoveOnFinalization\<close> set. On a runner with an identifier, a
  \<open>Stop\<close> that returns nil has recorded the stop and then the removal of the container,
  both successful, when the option is set, and the stop alone when it is not.
\<close>

theorem Stop_removes_by_default:
  "opts NewContainerRunner = Some \<lparr> RemoveOnFinalization = True \<rparr> \<and>
   (id' e \<noteq> [] \<and> opts e = Some \<lparr> RemoveOnFinalization = True \<rparr> \<and>
    fst (Stop eng w e) = Return None \<longrightarrow>
      (\<exists>c. client e = Some c \<and>
         Stop eng w e =
           (Return None, e,
            w @ [EvContainerStop c (id' e) Minute None, EvContainerRemove c (id' e) None]))) \<and>
   (id' e \<noteq> [] \<and> opts e = Some \<lparr> RemoveOnFinalization = False \<rparr> \<and>
    fst (Stop eng w e) = Return None \<longrightarrow>
      (\<exists>c. client e = Some c \<and>
         Stop eng w e = (Return None, e, w @ [EvContainerStop c (id' e) Minute None])))"
proof (intro conjI impI)
  show "opts NewContainerRunner = Some \<lparr> RemoveOnFinalization = True \<rparr>"
    by (simp add: NewContainerRunner_def)
next
  assume "id' e \<noteq> [] \<and> opts e = Some \<lparr> RemoveOnFinalization = True \<rparr> \<and>
    fst (Stop eng w e) = Return None"
  then have "id' e \<noteq> []" "fst (Stop eng w e) = Return None"
    "opts e = Some \<lparr> RemoveOnFinalization = True \<rparr>" by simp_all
  from Stop_success [OF this]
  show "\<exists>c. client e = Some c \<and>
         Stop eng w e =
           (Return None, e,
            w @ [EvContainerStop c (id' e) Minute None, EvContainerRemove c (id' e) None])"
    by simp
next
  assume "id' e \<noteq> [] \<and> opts e = Some \<lparr> RemoveOnFinalization = False \<rparr> \<and>
    fst (Stop eng w e) = Return None"
  then have "id' e \<noteq> []" "fst (Stop eng w e) = Return None"
    "opts e = Some \<lparr> RemoveOnFinalization = False \<rparr>" by simp_all
  from Stop_success [OF this]
  show "\<exists>c. client e = Some c \<and>
         Stop eng w e = (Return None, e, w @ [EvContainerStop c (id' e) Minute None])"
    by simp
qed

lemma Stop_failing_at_0:
  "id' e \<noteq> [] \<Longrightarrow> client e = Some c \<Longrightarrow> opts e = Some os \<Longrightarrow>
   Stop (failing_at 0) w e =
     (Return None, e,
      w @ (if RemoveOnFinalization os
           then [EvContainerStop c (id' e) Minute None, EvContainerRemove c (id' e) None]
           else [EvContainerStop c (id' e) Minute None]))"
  by (simp add: Stop_def failing_at_def)

theorem Stop_removes_by_default_witness:
  "(id' (fst started) \<noteq> [] \<and> opts (fst started) = Some \<lparr> RemoveOnFinalization = True \<rparr> \<and>
    fst (Stop (failing_at 0) (snd started) (fst started)) = Return None) \<and>
   (\<exists>c. client (fst started) = Some c \<and>
      Stop (failing_at 0) (snd started) (fst started) =
        (Return None, fst started,
         snd started @ [EvContainerStop c (id' (fst started)) Minute None,
                        EvContainerRemove c (id' (fst started)) None])) \<and>
   (id' (WithOptions (Some \<lparr> RemoveOnFinalization = False \<rparr>) (fst started)) \<noteq> [] \<and>
    opts (WithOptions (Some \<lparr> RemoveOnFinalization = False \<rparr>) (fst started)) =
      Some \<lparr> RemoveOnFinalization = False \<rparr> \<and>
    fst (Stop (failing_at 0) (snd started)
           (WithOptions (Some \<lparr> RemoveOnFinalization = False \<rparr>) (fst started))) =
      Return None) \<and>
   (\<exists>c. client (WithOptions (Some \<lparr> RemoveOnFinalization = False \<rparr>) (fst started)) = Some c \<and>
      Stop (failing_at 0) (snd started)
          (WithOptions (Some \<lparr> RemoveOnFinalization = False \<rparr>) (fst started)) =
        (Return None, WithOptions (Some \<lparr> RemoveOnFinalization = False \<rparr>) (fst started),
         snd started @
           [EvContainerStop c
              (id' (WithOptions (Some \<lparr> RemoveOnFinalization = False \<rparr>) (fst started)))
              Minute None]))"
proof -
  let ?kept = "WithOptions (Some \<lparr> RemoveOnFinalization = False \<rparr>) (fst started)"
  have removing:
    "id' (fst started) \<noteq> [] \<and> opts (fst started) = Some \<lparr> RemoveOnFinalization = True \<rparr> \<and>
     fst (Stop (failing_at 0) (snd started) (fst started)) = Return None"
    using Stop_failing_at_0 [of "fst started" 1 "\<lparr> RemoveOnFinalization = True \<rparr>" "snd started"]
    by (simp add: started_fields)
  have keeping:
    "id' ?kept \<noteq> [] \<and> opts ?kept = Some \<lparr> RemoveOnFinalization = False \<rparr> \<and>
     fst (Stop (failing_at 0) (snd started) ?kept) = Return None"
    using Stop_failing_at_0 [of ?kept 1 "\<lparr> RemoveOnFinalization = False \<rparr>" "snd started"]
    by (simp add: started_fields WithOptions_def)
  note a = Stop_removes_by_default
    [where e = "fst started" and eng = "failing_at 0" and w = "snd started",
     THEN conjunct2, THEN conjunct1, THEN mp, OF removing]
  note b = Stop_removes_by_default
    [where e = ?kept and eng = "failing_at 0" and w = "snd started",
     THEN conjunct2, THEN conjunct2, THEN mp, OF keeping]
  show ?thesis by (rule conjI [OF removing conjI [OF a conjI [OF keeping b]]])
qed

lemma Start_error_stage:
  assumes "fst (Start eng w e) = Some err"
  shows "\<exists>stage x. err = Errorf stage (Engine x) \<and>
           stage \<in> {''creating env client'', ''pulling image'', ''creating container'',
                    ''starting container''}"
proof (cases "NewEnvClient eng w")
  case (Inl x)
  with assms show ?thesis by (auto simp: Start_client_fails)
next
  case client: (Inr c)
  let ?w1 = "w @ [EvNewEnvClient (Inr c)]"
  show ?thesis
  proof (cases "ImagePull eng ?w1 c (image' e)")
    case (Some x)
    with client assms show ?thesis by (auto simp: Start_pull_fails)
  next
    case pulled: None
    let ?w2 = "w @ [EvNewEnvClient (Inr c), EvImagePull c (image' e) None]"
    let ?cfg = "\<lparr> Image = image' e, ExposedPorts = exposedPorts e \<rparr>"
    let ?hc = "\<lparr> PortBindings = portBindings e \<rparr>"
    show ?thesis
    proof (cases "ContainerCreate eng ?w2 c ?cfg ?hc (name e)")
      case (Inl x)
      with client pulled assms show ?thesis by (auto simp: Start_create_fails)
    next
      case (Inr ID)
      from Start_created [OF client pulled Inr refl] assms show ?thesis
        by (auto split: option.splits)
    qed
  qed
qed

lemma Stop_error_stage:
  assumes "fst (Stop eng w e) = Return (Some err)"
  shows "err = ErrNoContainerId \<and> id' e = [] \<or>
         (\<exists>stage x. err = Errorf stage (Engine x) \<and>
            stage \<in> {''stopping container'', ''removing container''})"
  using assms by (auto simp: Stop_def Let_def split: if_splits option.splits)

text \<open>
  C6, amended. When a stage of \<open>Start\<close> or \<open>Stop\<close> fails, the call returns the error of
  the engine wrapped under the label of the stage, records no later call, and leaves the
  runner as the stages before it made it: \<open>Start\<close> has stored the client handle that
  \<open>NewEnvClient\<close> returned, which is nil when \<open>NewEnvClient\<close> is the stage that fails, and
  the identifier if the container was created; \<open>Stop\<close> changes nothing. Every error of
  \<open>Start\<close> is such a wrapper, every error of \<open>Stop\<close> is one or is \<open>ErrNoContainerId\<close>,
  and \<open>Unwrap\<close> and \<open>errors.Is\<close> give the engine's error back.
\<close>

theorem failures_wrap_and_abort:
  "(NewEnvClient eng w = Inl x \<longrightarrow>
      Start eng w e =
        (Some (Errorf ''creating env client'' (Engine x)), e \<lparr> client := None \<rparr>,
         w @ [EvNewEnvClient (Inl x)])) \<and>
   (NewEnvClient eng w = Inr c \<and>
    ImagePull eng (w @ [EvNewEnvClient (Inr c)]) c (image' e) = Some x \<longrightarrow>
      Start eng w e =
        (Some (Errorf ''pulling image'' (Engine x)), e \<lparr> client := Some c \<rparr>,
         w @ [EvNewEnvClient (Inr c), EvImagePull c (image' e) (Some x)])) \<and>
   (NewEnvClient eng w = Inr c \<and>
    ImagePull eng (w @ [EvNewEnvClient (Inr c)]) c (image' e) = None \<and>
    ContainerCreate eng (w @ [EvNewEnvClient (Inr c), EvImagePull c (image' e) None]) c
      \<lparr> Image = image' e, ExposedPorts = exposedPorts e \<rparr>
      \<lparr> PortBindings = portBindings e \<rparr> (name e) = Inl x \<longrightarrow>
      Start eng w e =
        (Some (Errorf ''creating container'' (Engine x)), e \<lparr> client := Some c \<rparr>,
         w @ [EvNewEnvClient (Inr c), EvImagePull c (image' e) None,
              EvContainerCreate c \<lparr> Image = image' e, ExposedPorts = exposedPorts e \<rparr>
                \<lparr> PortBindings = portBindings e \<rparr> (name e) (Inl x)])) \<and>
   (NewEnvClient eng w = Inr c \<and>
    ImagePull eng (w @ [EvNewEnvClient (Inr c)]) c (image' e) = None \<and>
    ContainerCreate eng (w @ [EvNewEnvClient (Inr c), EvImagePull c (image' e) None]) c
      \<lparr> Image = image' e, ExposedPorts = exposedPorts e \<rparr>
      \<lparr> PortBindings = portBindings e \<rparr> (name e) = Inr ID \<and>
    ContainerStart eng
      (w @ [EvNewEnvClient (Inr c), EvImagePull c (image' e) None,
            EvContainerCreate c \<lparr> Image = image' e, ExposedPorts = exposedPorts e \<rparr>
              \<lparr> PortBindings = portBindings e \<rparr> (name e) (Inr ID)]) c ID = Some x \<longrightarrow>
      Start eng w e =
        (Some (Errorf ''starting container'' (Engine x)), e \<lparr> client := Some c, id' := ID \<rparr>,
         w @ [EvNewEnvClient (Inr c), EvImagePull c (image' e) None,
              EvContainerCreate c \<lparr> Image = image' e, ExposedPorts = exposedPorts e \<rparr>
                \<lparr> PortBindings = portBindings e \<rparr> (name e) (Inr ID),
              EvContainerStart c ID (Some x)])) \<and>
   (id' e \<noteq> [] \<and> client e = Some c \<and> ContainerStop eng w c (id' e) Minute = Some x \<longrightarrow>
      Stop eng w e =
        (Return (Some (Errorf ''stopping container'' (Engine x))), e,
         w @ [EvContainerStop c (id' e) Minute (Some x)])) \<and>
   (id' e \<noteq> [] \<and> client e = Some c \<and> ContainerStop eng w c (id' e) Minute = None \<and>
    opts e = Some os \<and> RemoveOnFinalization os \<and>
    ContainerRemove eng (w @ [EvContainerStop c (id' e) Minute None]) c (id' e) = Some x \<longrightarrow>
      Stop eng w e =
        (Return (Some (Errorf ''removing container'' (Engine x))), e,
         w @ [EvContainerStop c (id' e) Minute None, EvContainerRemove c (id' e) (Some x)])) \<and>
   (fst (Start eng w e) = Some err \<longrightarrow>
      (\<exists>stage y. err = Errorf stage (Engine y) \<and>
         stage \<in> {''creating env client'', ''pulling image'', ''creating container'',
                  ''starting container''})) \<and>
   (fst (Stop eng w e) = Return (Some err) \<longrightarrow>
      err = ErrNoContainerId \<and> id' e = [] \<or>
      (\<exists>stage y. err = Errorf stage (Engine y) \<and>
         stage \<in> {''stopping container'', ''removing container''})) \<and>
   Unwrap (Errorf stage (Engine x)) = Some (Engine x) \<and>
   Is (Errorf stage (Engine x)) (Engine x) \<and>
   Error (Errorf stage (Engine (EngineError m))) = stage @ '': '' @ m"
proof -
  note s1 = Start_client_fails [of eng w x e]
  note s2 = Start_pull_fails [of eng w c e x]
  note s3 = Start_create_fails [of eng w c e x]
  note s4 = Start_created [of eng w c e ID "Some x", simplified]
  note s5 = Stop_stop_fails [of e c eng w x]
  note s6 = Stop_remove [of e c eng w os "Some x", simplified]
  note s7 = Start_error_stage [of eng w e err]
  note s8 = Stop_error_stage [of eng w e err]
  have s9: "Unwrap (Errorf stage (Engine x)) = Some (Engine x) \<and>
    Is (Errorf stage (Engine x)) (Engine x) \<and>
    Error (Errorf stage (Engine (EngineError m))) = stage @ '': '' @ m"
    by simp
  show ?thesis
    apply (intro conjI impI)
    subgoal by (rule s1)
    subgoal by (rule s2) simp_all
    subgoal by (rule s3) simp_all
    subgoal by (rule s4) simp_all
    subgoal by (rule s5) simp_all
    subgoal by (rule s6) simp_all
    subgoal by (rule s7)
    subgoal by (rule s8)
    subgoal using s9 by simp
    subgoal using s9 by simp
    subgoal using s9 by simp
    done
qed


theorem failures_wrap_and_abort_witness:
  "Start (failing_at 1) [] mongo =
     (Some (Errorf ''creating env client'' (Engine (EngineError ''cannot connect''))),
      mongo \<lparr> client := None \<rparr>, [] @ [EvNewEnvClient (Inl (EngineError ''cannot connect''))]) \<and>
   Start (failing_at 2) [] mongo =
     (Some (Errorf ''pulling image'' (Engine (EngineError ''pull access denied''))),
      mongo \<lparr> client := Some 1 \<rparr>,
      [] @ [EvNewEnvClient (Inr 1),
            EvImagePull 1 (image' mongo) (Some (EngineError ''pull access denied''))]) \<and>
   Start (failing_at 3) [] mongo =
     (Some (Errorf ''creating container'' (Engine (EngineError ''name already in use''))),
      mongo \<lparr> client := Some 1 \<rparr>,
      [] @ [EvNewEnvClient (Inr 1), EvImagePull 1 (image' mongo) None,
            EvContainerCreate 1 \<lparr> Image = image' mongo, ExposedPorts = exposedPorts mongo \<rparr>
              \<lparr> PortBindings = portBindings mongo \<rparr> (name mongo)
              (Inl (EngineError ''name already in use''))]) \<and>
   Start (failing_at 4) [] mongo =
     (Some (Errorf ''starting container'' (Engine (EngineError ''port is already allocated''))),
      mongo \<lparr> client := Some 1, id' := ''4f2a'' \<rparr>,
      [] @ [EvNewEnvClient (Inr 1), EvImagePull 1 (image' mongo) None,
            EvContainerCreate 1 \<lparr> Image = image' mongo, ExposedPorts = exposedPorts mongo \<rparr>
              \<lparr> PortBindings = portBindings mongo \<rparr> (name mongo) (Inr ''4f2a''),
            EvContainerStart 1 ''4f2a'' (Some (EngineError ''port is already allocated''))]) \<and>
   Stop (failing_at 5) (snd started) (fst started) =
     (Return (Some (Errorf ''stopping container'' (Engine (EngineError ''no such container'')))),
      fst started,
      snd started @
        [EvContainerStop 1 (id' (fst started)) Minute (Some (EngineError ''no such container''))]) \<and>
   Stop (failing_at 6) (snd started) (fst started) =
     (Return (Some (Errorf ''removing container'' (Engine (EngineError ''removal in progress'')))),
      fst started,
      snd started @
        [EvContainerStop 1 (id' (fst started)) Minute None,
         EvContainerRemove 1 (id' (fst started)) (Some (EngineError ''removal in progress''))])"
proof -
  have h1: "NewEnvClient (failing_at 1) [] = Inl (EngineError ''cannot connect'')"
    by (simp add: failing_at_def)
  have h2: "NewEnvClient (failing_at 2) [] = Inr 1 \<and>
    ImagePull (failing_at 2) ([] @ [EvNewEnvClient (Inr 1)]) 1 (image' mongo) =
      Some (EngineError ''pull access denied'')"
    by (simp add: failing_at_def)
  have h3: "NewEnvClient (failing_at 3) [] = Inr 1 \<and>
    ImagePull (failing_at 3) ([] @ [EvNewEnvClient (Inr 1)]) 1 (image' mongo) = None \<and>
    ContainerCreate (failing_at 3)
      ([] @ [EvNewEnvClient (Inr 1), EvImagePull 1 (image' mongo) None]) 1
      \<lparr> Image = image' mongo, ExposedPorts = exposedPorts mongo \<rparr>
      \<lparr> PortBindings = portBindings mongo \<rparr> (name mongo) =
      Inl (EngineError ''name already in use'')"
    by (simp add: failing_at_def)
  have h4: "NewEnvClient (failing_at 4) [] = Inr 1 \<and>
    ImagePull (failing_at 4) ([] @ [EvNewEnvClient (Inr 1)]) 1 (image' mongo) = None \<and>
    ContainerCreate (failing_at 4)
      ([] @ [EvNewEnvClient (Inr 1), EvImagePull 1 (image' mongo) None]) 1
      \<lparr> Image = image' mongo, ExposedPorts = exposedPorts mongo \<rparr>
      \<lparr> PortBindings = portBindings mongo \<rparr> (name mongo) = Inr ''4f2a'' \<and>
    ContainerStart (failing_at 4)
      ([] @ [EvNewEnvClient (Inr 1), EvImagePull 1 (image' mongo) None,
             EvContainerCreate 1 \<lparr> Image = image' mongo, ExposedPorts = exposedPorts mongo \<rparr>
               \<lparr> PortBindings = portBindings mongo \<rparr> (name mongo) (Inr ''4f2a'')]) 1 ''4f2a'' =
      Some (EngineError ''port is already allocated'')"
    by (simp add: failing_at_def)
  have h5: "id' (fst started) \<noteq> [] \<and> client (fst started) = Some 1 \<and>
    ContainerStop (failing_at 5) (snd started) 1 (id' (fst started)) Minute =
      Some (EngineError ''no such container'')"
    by (simp add: failing_at_def started_fields)
  have h6: "id' (fst started) \<noteq> [] \<and> client (fst started) = Some 1 \<and>
    ContainerStop (failing_at 6) (snd started) 1 (id' (fst started)) Minute = None \<and>
    opts (fst started) = Some \<lparr> RemoveOnFinalization = True \<rparr> \<and>
    RemoveOnFinalization \<lparr> RemoveOnFinalization = True \<rparr> \<and>
    ContainerRemove (failing_at 6)
      (snd started @ [EvContainerStop 1 (id' (fst started)) Minute None]) 1 (id' (fst started)) =
      Some (EngineError ''removal in progress'')"
    by (simp add: failing_at_def started_fields)
  note c1 = failures_wrap_and_abort
    [where eng = "failing_at 1" and w = "[]" and e = mongo
       and x = "EngineError ''cannot connect''",
     THEN conjunct1, THEN mp, OF h1]
  note c2 = failures_wrap_and_abort
    [where eng = "failing_at 2" and w = "[]" and e = mongo and c = 1
       and x = "EngineError ''pull access denied''",
     THEN conjunct2, THEN conjunct1, THEN mp, OF h2]
  note c3 = failures_wrap_and_abort
    [where eng = "failing_at 3" and w = "[]" and e = mongo and c = 1
       and x = "EngineError ''name already in use''",
     THEN conjunct2, THEN conjunct2, THEN conjunct1, THEN mp, OF h3]
  note c4 = failures_wrap_and_abort
    [where eng = "failing_at 4" and w = "[]" and e = mongo and c = 1 and ID = "''4f2a''"
       and x = "EngineError ''port is already allocated''",
     THEN conjunct2, THEN conjunct2, THEN conjunct2, THEN conjunct1, THEN mp, OF h4]
  note c5 = failures_wrap_and_abort
    [where eng = "failing_at 5" and w = "snd started" and e = "fst started" and c = 1
       and x = "EngineError ''no such container''",
     THEN conjunct2, THEN conjunct2, THEN conjunct2, THEN conjunct2, THEN conjunct1,
     THEN mp, OF h5]
  note c6 = failures_wrap_and_abort
    [where eng = "failing_at 6" and w = "snd started" and e = "fst started" and c = 1
       and os = "\<lparr> RemoveOnFinalization = True \<rparr>"
       and x = "EngineError ''removal in progress''",
     THEN conjunct2, THEN conjunct2, THEN conjunct2, THEN conjunct2, THEN conjunct2,
     THEN conjunct1, THEN mp, OF h6]
  show ?thesis
    by (rule conjI [OF c1 conjI [OF c2 conjI [OF c3 conjI [OF c4 conjI [OF c5 c6]]]]])
qed

lemma started_once_eq:
  "started_once =
     (mongo \<lparr> client := Some 1, id' := ''4f2a'' \<rparr>,
      [EvNewEnvClient (Inr 1), EvImagePull 1 (image' mongo) None,
       EvContainerCreate 1 \<lparr> Image = image' mongo, ExposedPorts = exposedPorts mongo \<rparr>
         \<lparr> PortBindings = portBindings mongo \<rparr> (name mongo) (Inr ''4f2a''),
       EvContainerStart 1 ''4f2a'' None])"
  by (simp add: started_once_def Start_def client_once_def)

text \<open>
  C6 as stated fails at the first stage: a \<open>Start\<close> whose \<open>NewEnvClient\<close> fails on a
  runner that holds the client of an earlier \<open>Start\<close> replaces that handle by nil, so the
  runner is not as it was before the call.
\<close>

theorem failed_client_creation_counterexample:
  "fst (Start client_once [] mongo) = None \<and>
   client (fst started_once) = Some 1 \<and>
   fst (Start client_once (snd started_once) (fst started_once)) =
     Some (Errorf ''creating env client'' (Engine (EngineError ''cannot connect''))) \<and>
   client (fst (snd (Start client_once (snd started_once) (fst started_once)))) = None \<and>
   fst (snd (Start client_once (snd started_once) (fst started_once))) \<noteq> fst started_once"
proof -
  have first: "fst (Start client_once [] mongo) = None"
    by (simp add: Start_def client_once_def)
  have handle: "client (fst started_once) = Some 1"
    by (simp add: started_once_eq)
  have "NewEnvClient client_once (snd started_once) = Inl (EngineError ''cannot connect'')"
    by (simp add: started_once_eq client_once_def)
  then have again: "Start client_once (snd started_once) (fst started_once) =
     (Some (Errorf ''creating env client'' (Engine (EngineError ''cannot connect''))),
      fst started_once \<lparr> client := None \<rparr>,
      snd started_once @ [EvNewEnvClient (Inl (EngineError ''cannot connect''))])"
    by (rule Start_client_fails)
  have differ: "fst started_once \<lparr> client := None \<rparr> \<noteq> fst started_once"
  proof
    assume "fst started_once \<lparr> client := None \<rparr> = fst started_once"
    then have "client (fst started_once \<lparr> client := None \<rparr>) = client (fst started_once)"
      by (rule arg_cong)
    with handle show False by simp
  qed
  from first handle again differ show ?thesis by simp
qed

lemma lost_client_fields:
  "id' (fst lost_client) = ''4f2a''" "client (fst lost_client) = None"
  by (simp_all add: lost_client_def started_once_eq Start_def client_once_def)

lemma Stop_not_sentinel:
  "id' e \<noteq> [] \<Longrightarrow> fst (Stop eng w e) \<noteq> Return (Some ErrNoContainerId)"
  by (simp add: Stop_def Let_def split: option.splits)

lemma Stop_first_event:
  "id' e \<noteq> [] \<Longrightarrow> client e = Some c \<Longrightarrow>
   \<exists>evs. snd (snd (Stop eng w e)) =
     w @ EvContainerStop c (id' e) Minute (ContainerStop eng w c (id' e) Minute) # evs"
  by (simp add: Stop_def Let_def split: option.splits)

text \<open>
  C8. \<open>Stop\<close> leaves the runner, and so its identifier, as it is. On a runner with an
  identifier a further \<open>Stop\<close>, whatever the engine has recorded by then, never returns
  \<open>ErrNoContainerId\<close>: with a client it calls the engine to stop the container again,
  and to remove it again when the stop succeeds and \<open>RemoveOnFinalization\<close> is set; with a
  nil client the call to stop panics in the client.
\<close>

theorem Stop_keeps_id:
  "fst (snd (Stop eng w e)) = e \<and>
   id' (fst (snd (Stop eng w e))) = id' e \<and>
   (id' e \<noteq> [] \<longrightarrow>
      fst (Stop eng w2 (fst (snd (Stop eng w e)))) \<noteq> Return (Some ErrNoContainerId)) \<and>
   (id' e \<noteq> [] \<and> client e = Some c \<longrightarrow>
      (\<exists>evs. snd (snd (Stop eng w2 (fst (snd (Stop eng w e))))) =
         w2 @ EvContainerStop c (id' e) Minute (ContainerStop eng w2 c (id' e) Minute) # evs)) \<and>
   (id' e \<noteq> [] \<and> client e = Some c \<and> ContainerStop eng w2 c (id' e) Minute = None \<and>
    opts e = Some os \<and> RemoveOnFinalization os \<longrightarrow>
      snd (snd (Stop eng w2 (fst (snd (Stop eng w e))))) =
        w2 @ [EvContainerStop c (id' e) Minute None,
              EvContainerRemove c (id' e)
                (ContainerRemove eng (w2 @ [EvContainerStop c (id' e) Minute None]) c (id' e))]) \<and>
   (id' e \<noteq> [] \<and> client e = None \<longrightarrow>
      Stop eng w2 (fst (snd (Stop eng w e))) = (Panic NilClient, e, w2))"
proof -
  have same: "fst (snd (Stop eng w e)) = e" by (rule Stop_runner)
  have a: "id' e \<noteq> [] \<longrightarrow> fst (Stop eng w2 e) \<noteq> Return (Some ErrNoContainerId)"
    by (simp add: Stop_not_sentinel)
  have b: "id' e \<noteq> [] \<and> client e = Some c \<longrightarrow>
      (\<exists>evs. snd (snd (Stop eng w2 e)) =
         w2 @ EvContainerStop c (id' e) Minute (ContainerStop eng w2 c (id' e) Minute) # evs)"
    using Stop_first_event [of e c eng w2] by blast
  have c: "id' e \<noteq> [] \<and> client e = Some c \<and> ContainerStop eng w2 c (id' e) Minute = None \<and>
    opts e = Some os \<and> RemoveOnFinalization os \<longrightarrow>
      snd (snd (Stop eng w2 e)) =
        w2 @ [EvContainerStop c (id' e) Minute None,
              EvContainerRemove c (id' e)
                (ContainerRemove eng (w2 @ [EvContainerStop c (id' e) Minute None]) c (id' e))]"
    using Stop_remove [of e c eng w2 os, OF _ _ _ _ _ refl] by simp
  have d: "id' e \<noteq> [] \<and> client e = None \<longrightarrow> Stop eng w2 e = (Panic NilClient, e, w2)"
    by (simp add: Stop_nil_client)
  from a b c d show ?thesis unfolding same by (intro conjI) simp_all
qed

theorem Stop_keeps_id_witness:
  "(id' (fst started) \<noteq> [] \<and> client (fst started) = Some 1 \<and>
    ContainerStop (failing_at 0)
      (snd (snd (Stop (failing_at 0) (snd started) (fst started)))) 1 (id' (fst started)) Minute =
      None \<and>
    opts (fst started) = Some \<lparr> RemoveOnFinalization = True \<rparr> \<and>
    RemoveOnFinalization \<lparr> RemoveOnFinalization = True \<rparr>) \<and>
   fst (Stop (failing_at 0) (snd (snd (Stop (failing_at 0) (snd started) (fst started))))
          (fst (snd (Stop (failing_at 0) (snd started) (fst started))))) \<noteq>
     Return (Some ErrNoContainerId) \<and>
   snd (snd (Stop (failing_at 0) (snd (snd (Stop (failing_at 0) (snd started) (fst started))))
               (fst (snd (Stop (failing_at 0) (snd started) (fst started)))))) =
     snd (snd (Stop (failing_at 0) (snd started) (fst started))) @
       [EvContainerStop 1 (id' (fst started)) Minute None,
        EvContainerRemove 1 (id' (fst started))
          (ContainerRemove (failing_at 0)
             (snd (snd (Stop (failing_at 0) (snd started) (fst started))) @
                [EvContainerStop 1 (id' (fst started)) Minute None]) 1 (id' (fst started)))] \<and>
   (id' (fst lost_client) \<noteq> [] \<and> client (fst lost_client) = None) \<and>
   Stop client_once (snd lost_client)
       (fst (snd (Stop client_once (snd lost_client) (fst lost_client)))) =
     (Panic NilClient, fst lost_client, snd lost_client)"
proof -
  let ?w2 = "snd (snd (Stop (failing_at 0) (snd started) (fst started)))"
  have h: "id' (fst started) \<noteq> [] \<and> client (fst started) = Some 1 \<and>
    ContainerStop (failing_at 0) ?w2 1 (id' (fst started)) Minute = None \<and>
    opts (fst started) = Some \<lparr> RemoveOnFinalization = True \<rparr> \<and>
    RemoveOnFinalization \<lparr> RemoveOnFinalization = True \<rparr>"
    by (simp add: started_fields failing_at_def)
  then have h0: "id' (fst started) \<noteq> []" by (rule conjunct1)
  note t = Stop_keeps_id
    [where eng = "failing_at 0" and w = "snd started" and e = "fst started" and ?w2.0 = ?w2
       and c = 1 and os = "\<lparr> RemoveOnFinalization = True \<rparr>"]
  note a = t [THEN conjunct2, THEN conjunct2, THEN conjunct1, THEN mp, OF h0]
  note b = t [THEN conjunct2, THEN conjunct2, THEN conjunct2, THEN conjunct2, THEN conjunct1,
              THEN mp, OF h]
  have n: "id' (fst lost_client) \<noteq> [] \<and> client (fst lost_client) = None"
    by (simp add: lost_client_fields)
  note d = Stop_keeps_id
    [where eng = client_once and w = "snd lost_client" and e = "fst lost_client"
       and ?w2.0 = "snd lost_client",
     THEN conjunct2, THEN conjunct2, THEN conjunct2, THEN conjunct2, THEN conjunct2,
     THEN mp, OF n]
  show ?thesis by (rule conjI [OF h conjI [OF a conjI [OF b conjI [OF n d]]]])
qed

text \<open>
  C10. A new runner has options, and \<open>WithOptions\<close> stores the pointer it is given,
  nil or not, and changes nothing else. \<open>Stop\<close> panics on nil options exactly when the
  runner has an identifier and a client, the engine has stopped the container, and the
  options are nil; so it never does after \<open>WithOptions\<close> with a pointer that is not nil,
  and it does after \<open>WithOptions(nil)\<close> on such a runner, the stop of the container being
  recorded.
\<close>

theorem Stop_nil_options:
  "opts NewContainerRunner \<noteq> None \<and>
   opts (WithOptions os e) = os \<and>
   WithOptions os e = e \<lparr> opts := os \<rparr> \<and>
   opts (WithOptions None e) = None \<and>
   (fst (Stop eng w e) = Panic NilOpts \<longleftrightarrow>
      id' e \<noteq> [] \<and> opts e = None \<and>
      (\<exists>c. client e = Some c \<and> ContainerStop eng w c (id' e) Minute = None)) \<and>
   fst (Stop eng w (WithOptions (Some ro) e)) \<noteq> Panic NilOpts \<and>
   (id' e \<noteq> [] \<and> client e = Some c \<and> ContainerStop eng w c (id' e) Minute = None \<longrightarrow>
      Stop eng w (WithOptions None e) =
        (Panic NilOpts, WithOptions None e, w @ [EvContainerStop c (id' e) Minute None]))"
proof -
  have a: "opts NewContainerRunner \<noteq> None" by (simp add: NewContainerRunner_def)
  have s: "opts (WithOptions os e) = os" by (simp add: WithOptions_def)
  have f: "WithOptions os e = e \<lparr> opts := os \<rparr>" by (simp add: WithOptions_def)
  have b: "opts (WithOptions None e) = None" by (simp add: WithOptions_def)
  have c: "fst (Stop eng w e) = Panic NilOpts \<longleftrightarrow>
      id' e \<noteq> [] \<and> opts e = None \<and>
      (\<exists>c. client e = Some c \<and> ContainerStop eng w c (id' e) Minute = None)" for e
    by (auto simp: Stop_def Let_def split: option.splits)
  have n: "fst (Stop eng w (WithOptions (Some ro) e)) \<noteq> Panic NilOpts"
    by (simp add: c WithOptions_def)
  have d: "id' e \<noteq> [] \<and> client e = Some c \<and> ContainerStop eng w c (id' e) Minute = None \<longrightarrow>
      Stop eng w (WithOptions None e) =
        (Panic NilOpts, WithOptions None e, w @ [EvContainerStop c (id' e) Minute None])"
    using Stop_nil_opts [of "WithOptions None e" c eng w] by (simp add: WithOptions_def)
  show ?thesis
    by (rule conjI [OF a conjI [OF s conjI [OF f conjI [OF b conjI [OF c conjI [OF n d]]]]]])
qed

theorem Stop_nil_options_witness:
  "(id' (fst started) \<noteq> [] \<and> client (fst started) = Some 1 \<and>
    ContainerStop (failing_at 0) (snd started) 1 (id' (fst started)) Minute = None) \<and>
   Stop (failing_at 0) (snd started) (WithOptions None (fst started)) =
     (Panic NilOpts, WithOptions None (fst started),
      snd started @ [EvContainerStop 1 (id' (fst started)) Minute None]) \<and>
   opts (WithOptions (Some \<lparr> RemoveOnFinalization = False \<rparr>) (fst started)) =
     Some \<lparr> RemoveOnFinalization = False \<rparr> \<and>
   fst (Stop (failing_at 0) (snd started)
          (WithOptions (Some \<lparr> RemoveOnFinalization = False \<rparr>) (fst started))) \<noteq>
     Panic NilOpts"
proof -
  have h: "id' (fst started) \<noteq> [] \<and> client (fst started) = Some 1 \<and>
    ContainerStop (failing_at 0) (snd started) 1 (id' (fst started)) Minute = None"
    by (simp add: started_fields failing_at_def)
  note t = Stop_nil_options
    [where eng = "failing_at 0" and w = "snd started" and e = "fst started" and c = 1
       and os = "Some \<lparr> RemoveOnFinalization = False \<rparr>"
       and ro = "\<lparr> RemoveOnFinalization = False \<rparr>"]
  note d = t [THEN conjunct2, THEN conjunct2, THEN conjunct2, THEN conjunct2, THEN conjunct2,
              THEN conjunct2, THEN mp, OF h]
  note s = t [THEN conjunct2, THEN conjunct1]
  note n = t [THEN conjunct2, THEN conjunct2, THEN conjunct2, THEN conjunct2, THEN conjunct2,
              THEN conjunct1]
  show ?thesis by (rule conjI [OF h conjI [OF d conjI [OF s n]]])
qed

end
